theory Spec2Isabelle
  imports Main
begin

section \<open>Python strings\<close>

text \<open>
  The rule interpreter of \<^verbatim>\<open>tools/translate.py\<close> works on Python strings. A Python
  \<^verbatim>\<open>str\<close> is modelled as a \<^typ>\<open>string\<close> of ASCII characters: the PURL
  configurations hold URLs. The string methods the interpreter calls are modelled on
  that domain; a character outside ASCII is left alone by every one of them.
\<close>

abbreviation backslash :: char where
  "backslash \<equiv> CHR 0x5C"

abbreviation dquote :: char where
  "dquote \<equiv> CHR 0x22"

text \<open>\<^verbatim>\<open>str.lower()\<close>: the letters A to Z go to a to z.\<close>

definition lower_char :: "char \<Rightarrow> char" where
  "lower_char c =
     (case map_of (zip ''ABCDEFGHIJKLMNOPQRSTUVWXYZ'' ''abcdefghijklmnopqrstuvwxyz'') c of
        Some d \<Rightarrow> d
      | None \<Rightarrow> c)"

definition lower :: "string \<Rightarrow> string" where
  "lower s = map lower_char s"

text \<open>
  \<^verbatim>\<open>str.isspace()\<close> on one ASCII character: tab, line feed, vertical tab, form feed,
  carriage return, the four separators 0x1C to 0x1F, and the space.
\<close>

definition isspace :: "char \<Rightarrow> bool" where
  "isspace c \<longleftrightarrow>
     c \<in> set [CHR 0x09, CHR 0x0A, CHR 0x0B, CHR 0x0C, CHR 0x0D,
                CHR 0x1C, CHR 0x1D, CHR 0x1E, CHR 0x1F, CHR 0x20]"

text \<open>\<^verbatim>\<open>str.strip()\<close> with no argument removes leading and trailing whitespace.\<close>

definition strip :: "string \<Rightarrow> string" where
  "strip s = rev (dropWhile isspace (rev (dropWhile isspace s)))"

text \<open>\<^verbatim>\<open>s.startswith(p)\<close>.\<close>

definition startswith :: "string \<Rightarrow> string \<Rightarrow> bool" where
  "startswith s p \<longleftrightarrow> take (length p) s = p"

text \<open>
  \<^verbatim>\<open>s.replace(old, new)\<close>: the occurrences of \<open>old\<close> are replaced from left to
  right, without overlap. With an empty \<open>old\<close>, Python puts \<open>new\<close> before every
  character and at the end.
\<close>

function replace :: "string \<Rightarrow> string \<Rightarrow> string \<Rightarrow> string" where
  "replace old new s =
     (if old = [] then new @ concat (map (\<lambda>c. c # new) s)
      else if s = [] then []
      else if startswith s old then new @ replace old new (drop (length old) s)
      else hd s # replace old new (tl s))"
  by pat_completeness auto
termination
  by (relation "measure (\<lambda>(old, new, s). length s)") auto

declare replace.simps [simp del]

text \<open>
  \<^verbatim>\<open>re.escape(s)\<close> of the standard library (CPython 3.7 and later): a backslash is
  put before each character of \<^verbatim>\<open>()[]{}?*+-|^$\.&~#\<close>, the space, tab, line feed,
  carriage return, vertical tab and form feed. Every other character, the forward
  slash among them, is kept as it is.
\<close>

definition re_special :: "char \<Rightarrow> bool" where
  "re_special c \<longleftrightarrow>
     c \<in> set ''()[]{}?*+-|^$.&~# '' \<or> c = backslash \<or>
     c \<in> set [CHR 0x09, CHR 0x0A, CHR 0x0D, CHR 0x0B, CHR 0x0C]"

definition re_escape :: "string \<Rightarrow> string" where
  "re_escape s = concat (map (\<lambda>c. if re_special c then [backslash, c] else [c]) s)"

section \<open>The rule interpreter\<close>

text \<open>
  \<^verbatim>\<open>clean_source(s)\<close>: strip, escape, then turn each backslash followed by a slash
  into a slash.
\<close>

definition clean_source :: "string \<Rightarrow> string" where
  "clean_source s = replace [backslash, CHR ''/''] ''/'' (re_escape (strip s))"

text \<open>
  A rule is one element of the \<^verbatim>\<open>purl_rules\<close> list of the YAML document: a map from
  field names to strings, or something that is not a map. Of a map, the interpreter
  reads the fields \<^verbatim>\<open>path\<close>, \<^verbatim>\<open>prefix\<close>, \<^verbatim>\<open>regex\<close>, \<^verbatim>\<open>term_browser\<close>,
  \<^verbatim>\<open>replacement\<close>, \<^verbatim>\<open>level\<close> and \<^verbatim>\<open>status\<close> only.
\<close>

type_synonym rule_dict = "string \<rightharpoonup> string"

datatype yaml = YMap rule_dict | YOther

text \<open>
  Every failure of \<^verbatim>\<open>process_rule\<close> is a Python \<^verbatim>\<open>ValueError\<close>; the constructors tell
  the places that raise it apart, by the message raised there:
  \<^item> \<open>NotAMap\<close>: "Not a YAML map";
  \<^item> \<open>MissingType\<close>: "Rule does not have a valid type";
  \<^item> \<open>MultipleTypes\<close>: "Rule has multiple types";
  \<^item> \<open>ReplacementError\<close>: "term_browser rules do not use replacement" and
    "Missing replacement field";
  \<^item> \<open>MissingLevel\<close>: "regex rule must have a level";
  \<^item> \<open>UnknownBrowser\<close>: "Unknown term_browser";
  \<^item> \<open>NamespaceMismatch\<close>: "Bad path ... for IDSPACE" and "Bad prefix ... for IDSPACE";
  \<^item> \<open>InvalidLevel\<close>: "Level must be project or top";
  \<^item> \<open>TopLevelPollution\<close>: "Invalid top-level rule for IDSPACE";
  \<^item> \<open>InvalidStatus\<close>: "Invalid status ... for rule".
\<close>

datatype error =
    NotAMap
  | MissingType
  | MultipleTypes
  | ReplacementError
  | MissingLevel
  | UnknownBrowser
  | NamespaceMismatch
  | InvalidLevel
  | TopLevelPollution
  | InvalidStatus

text \<open>The local variables of \<^verbatim>\<open>process_rule\<close>.\<close>

record locals =
  rule_type :: string
  path :: string
  prefix :: string
  source :: string
  replacement :: string
  rule_level :: string
  status :: string

definition base_url :: "string \<Rightarrow> string" where
  "base_url idspace = (if idspace = ''OBO'' then ''/obo'' else ''/obo/'' @ lower idspace)"

text \<open>The initial values of the locals (lines 129 to 134).\<close>

definition init_locals :: "locals" where
  "init_locals =
     \<lparr>rule_type = '''', path = '''', prefix = '''', source = '''', replacement = '''',
      rule_level = ''top'', status = ''temporary''\<rparr>"

text \<open>The list \<^verbatim>\<open>types\<close> of the type fields present, in the order the code appends them.\<close>

definition rule_types :: "rule_dict \<Rightarrow> string list" where
  "rule_types rule =
     (if rule ''path'' \<noteq> None then [''path''] else []) @
     (if rule ''prefix'' \<noteq> None then [''prefix''] else []) @
     (if rule ''regex'' \<noteq> None then [''regex''] else []) @
     (if rule ''term_browser'' \<noteq> None then [''term_browser''] else [])"

text \<open>The check of the \<^verbatim>\<open>replacement\<close> field (lines 158 to 164): does it raise?\<close>

definition bad_replacement :: "string \<Rightarrow> rule_dict \<Rightarrow> bool" where
  "bad_replacement rtype rule =
     (if rtype = ''term_browser'' then rule ''replacement'' \<noteq> None
      else (case rule ''replacement'' of None \<Rightarrow> True | Some r \<Rightarrow> strip r = ''''))"

text \<open>
  The branch on the rule's type (lines 166 to 187). A field that is read is present:
  the type was found among the keys, and the replacement has been checked.
\<close>

definition handle_rule :: "string \<Rightarrow> string \<Rightarrow> rule_dict \<Rightarrow> error + locals" where
  "handle_rule idspace rtype rule =
     (let st = init_locals\<lparr>rule_type := rtype\<rparr> in
      if rtype = ''path'' then
        Inr (st\<lparr>path := the (rule ''path''),
                source := ''(?i)^'' @ clean_source (the (rule ''path'')) @ ''$'',
                replacement := the (rule ''replacement'')\<rparr>)
      else if rtype = ''prefix'' then
        Inr (st\<lparr>prefix := the (rule ''prefix''),
                source := ''(?i)^'' @ clean_source (the (rule ''prefix'')) @ ''(.*)$'',
                replacement := the (rule ''replacement'') @ ''$1''\<rparr>)
      else if rtype = ''regex'' then
        (if rule ''level'' = None then Inl MissingLevel
         else Inr (st\<lparr>source := the (rule ''regex''),
                      replacement := the (rule ''replacement'')\<rparr>))
      else if rtype = ''term_browser'' then
        (if lower (the (rule ''term_browser'')) = ''ontobee'' then
           Inr (st\<lparr>source := ''(?i)^/obo/'' @ idspace @ ''_('' @ [backslash] @ ''d+)$'',
                   replacement :=
                     ''http://www.ontobee.org/browser/rdf.php?o='' @ idspace @
                     ''&iri=http://purl.obolibrary.org/obo/'' @ idspace @ ''_$1'',
                   rule_level := ''top'',
                   status := ''see other''\<rparr>)
         else Inl UnknownBrowser)
      else Inr st)"

text \<open>The level of the rule (lines 195 to 206), after the branch on its type.\<close>

definition determine_level :: "string \<Rightarrow> rule_dict \<Rightarrow> locals \<Rightarrow> error + locals" where
  "determine_level idspace rule st =
     (case rule ''level'' of
        Some l \<Rightarrow>
          (if lower l = ''project'' \<or> lower l = ''top''
           then Inr (st\<lparr>rule_level := lower l\<rparr>)
           else Inl InvalidLevel)
      | None \<Rightarrow>
          (if startswith (lower (path st)) (base_url idspace @ ''/'')
           then Inr (st\<lparr>rule_level := ''project''\<rparr>)
           else if startswith (lower (prefix st)) (base_url idspace @ ''/'')
           then Inr (st\<lparr>rule_level := ''project''\<rparr>)
           else if rule_type st = ''term_browser''
           then Inr (st\<lparr>rule_level := ''top''\<rparr>)
           else Inr st))"

text \<open>
  The first part of \<^verbatim>\<open>process_rule\<close> on a map (lines 140 to 206): the type of the
  rule, its replacement, the branch on the type, the check of the namespace and the
  level. It does not read the processing level. It returns the locals as they are
  when the filtering on the processing level starts.
\<close>

definition resolve_rule :: "string \<Rightarrow> rule_dict \<Rightarrow> error + locals" where
  "resolve_rule idspace rule =
     (case rule_types rule of
        [] \<Rightarrow> Inl MissingType
      | [rtype] \<Rightarrow>
          (if bad_replacement rtype rule then Inl ReplacementError
           else
             (case handle_rule idspace rtype rule of
                Inl e \<Rightarrow> Inl e
              | Inr st \<Rightarrow>
                  (if rtype = ''path'' \<and> \<not> startswith (lower (path st)) (base_url idspace)
                   then Inl NamespaceMismatch
                   else if rtype = ''prefix'' \<and>
                           \<not> startswith (lower (prefix st)) (base_url idspace)
                   then Inl NamespaceMismatch
                   else determine_level idspace rule st)))
      | _ \<Rightarrow> Inl MultipleTypes)"

text \<open>The rules allowed at the top level (lines 222 to 231).\<close>

definition top_allowed :: "string \<Rightarrow> locals \<Rightarrow> bool" where
  "top_allowed idspace st \<longleftrightarrow>
     rule_type st = ''regex'' \<or>
     rule_type st = ''term_browser'' \<or>
     path st = base_url idspace \<or>
     path st = base_url idspace @ ''.owl'' \<or>
     path st = base_url idspace @ ''.obo'' \<or>
     prefix st = ''/obo/'' @ idspace @ ''_''"

text \<open>Apache's names of the statuses (lines 240 to 244).\<close>

definition apache_status :: "string \<Rightarrow> string" where
  "apache_status s =
     (if s = ''temporary'' then ''temp''
      else if s = ''see other'' then ''seeother''
      else s)"

text \<open>The directive string that is returned (line 247).\<close>

definition directive :: "string \<Rightarrow> string \<Rightarrow> string \<Rightarrow> string" where
  "directive st src repl =
     ''RedirectMatch '' @ st @ '' '' @ [dquote] @ src @ [dquote] @ '' '' @
     [dquote] @ repl @ [dquote]"

text \<open>
  \<^verbatim>\<open>process_rule(processing_level, idspace, rule)\<close>. The result is an error, or
  \<open>None\<close> for a rule that is left out at this processing level, or the directive.
\<close>

definition process_rule :: "string \<Rightarrow> string \<Rightarrow> yaml \<Rightarrow> error + string option" where
  "process_rule processing_level idspace rule =
     (case rule of
        YOther \<Rightarrow> Inl NotAMap
      | YMap r \<Rightarrow>
          (case resolve_rule idspace r of
             Inl e \<Rightarrow> Inl e
           | Inr st \<Rightarrow>
               (if processing_level = ''project'' \<and> rule_level st = ''top'' then Inr None
                else if processing_level = ''top'' \<and> rule_level st = ''project'' then Inr None
                else if processing_level = ''top'' \<and> \<not> top_allowed idspace st
                then Inl TopLevelPollution
                else
                  (case r ''status'' of
                     Some s \<Rightarrow>
                       (if s = ''permanent'' \<or> s = ''temporary'' \<or> s = ''see other''
                        then Inr (Some (directive (apache_status s) (source st)
                                          (replacement st)))
                        else Inl InvalidStatus)
                   | None \<Rightarrow>
                       Inr (Some (directive (apache_status (status st)) (source st)
                                    (replacement st)))))))"

text \<open>
  The level of a rule, when the first part of \<^verbatim>\<open>process_rule\<close> raises nothing: the
  value of \<^verbatim>\<open>rule_level\<close> when the filtering on the processing level starts.
\<close>

definition effective_level :: "string \<Rightarrow> rule_dict \<Rightarrow> string option" where
  "effective_level idspace rule =
     (case resolve_rule idspace rule of
        Inl e \<Rightarrow> None
      | Inr st \<Rightarrow> Some (rule_level st))"

text \<open>
  The shapes of rule that the specification allows at the top level, read on the rule
  itself: a regex rule, a term browser rule, a path equal to the base URL or to the
  base URL followed by \<^verbatim>\<open>.owl\<close> or \<^verbatim>\<open>.obo\<close>, a prefix equal to
  \<^verbatim>\<open>/obo/<namespace>_\<close>.
\<close>

definition top_shape :: "string \<Rightarrow> rule_dict \<Rightarrow> bool" where
  "top_shape idspace rule \<longleftrightarrow>
     rule ''regex'' \<noteq> None \<or> rule ''term_browser'' \<noteq> None \<or>
     rule ''path'' = Some (base_url idspace) \<or>
     rule ''path'' = Some (base_url idspace @ ''.owl'') \<or>
     rule ''path'' = Some (base_url idspace @ ''.obo'') \<or>
     rule ''prefix'' = Some (''/obo/'' @ idspace @ ''_'')"

section \<open>Evaluation and the shape of the locals\<close>

lemmas resolve_defs = resolve_rule_def bad_replacement_def handle_rule_def determine_level_def
  init_locals_def

lemmas eval_defs = process_rule_def resolve_defs rule_types_def lower_def lower_char_def
  top_allowed_def directive_def apache_status_def startswith_def base_url_def clean_source_def
  strip_def isspace_def re_escape_def re_special_def effective_level_def top_shape_def
  replace.simps

lemma rule_types_length:
  "length (rule_types r) = card ({''path'', ''prefix'', ''regex'', ''term_browser''} \<inter> dom r)"
  by (auto simp: rule_types_def dom_def Int_insert_left)

lemma rule_types_path:
  "rule_types r = [''path''] \<longleftrightarrow>
     r ''path'' \<noteq> None \<and> r ''prefix'' = None \<and> r ''regex'' = None \<and> r ''term_browser'' = None"
  by (auto simp: rule_types_def)

lemma rule_types_prefix:
  "rule_types r = [''prefix''] \<longleftrightarrow>
     r ''path'' = None \<and> r ''prefix'' \<noteq> None \<and> r ''regex'' = None \<and> r ''term_browser'' = None"
  by (auto simp: rule_types_def)

lemma rule_types_regex:
  "rule_types r = [''regex''] \<longleftrightarrow>
     r ''path'' = None \<and> r ''prefix'' = None \<and> r ''regex'' \<noteq> None \<and> r ''term_browser'' = None"
  by (auto simp: rule_types_def)

lemma rule_types_term_browser:
  "rule_types r = [''term_browser''] \<longleftrightarrow>
     r ''path'' = None \<and> r ''prefix'' = None \<and> r ''regex'' = None \<and> r ''term_browser'' \<noteq> None"
  by (auto simp: rule_types_def)

lemma rule_types_single:
  "rule_types r = [t] \<Longrightarrow>
     t = ''path'' \<or> t = ''prefix'' \<or> t = ''regex'' \<or> t = ''term_browser''"
  by (auto simp: rule_types_def split: if_splits)

lemma resolve_rule_no_type:
  "rule_types r = [] \<Longrightarrow> resolve_rule ns r = Inl MissingType"
  by (simp add: resolve_rule_def)

lemma resolve_rule_many_types:
  "2 \<le> length (rule_types r) \<Longrightarrow> resolve_rule ns r = Inl MultipleTypes"
  by (auto simp: resolve_rule_def Suc_le_length_iff numeral_2_eq_2)

lemma process_rule_resolve_error:
  "resolve_rule ns r = Inl e \<Longrightarrow> process_rule m ns (YMap r) = Inl e"
  by (simp add: process_rule_def)

lemma base_url_nonempty: "base_url ns \<noteq> []"
  by (simp add: base_url_def)

lemma handle_rule_locals:
  assumes "handle_rule ns t r = Inr st" and "rule_types r = [t]"
  shows "rule_type st = t
    \<and> path st = (case r ''path'' of None \<Rightarrow> '''' | Some p \<Rightarrow> p)
    \<and> prefix st = (case r ''prefix'' of None \<Rightarrow> '''' | Some p \<Rightarrow> p)"
  using assms rule_types_single [of r t]
  by (auto simp: handle_rule_def init_locals_def rule_types_path rule_types_prefix
      rule_types_regex rule_types_term_browser split: if_splits)

lemma determine_level_locals:
  assumes "determine_level ns r st = Inr st'"
  shows "rule_type st' = rule_type st \<and> path st' = path st \<and> prefix st' = prefix st
    \<and> source st' = source st \<and> replacement st' = replacement st \<and> status st' = status st"
  using assms by (auto simp: determine_level_def split: option.splits if_splits)

lemma resolve_rule_Inr:
  assumes "resolve_rule ns r = Inr st"
  obtains t st0 where "rule_types r = [t]" "\<not> bad_replacement t r"
    "handle_rule ns t r = Inr st0"
    "t = ''path'' \<longrightarrow> startswith (lower (path st0)) (base_url ns)"
    "t = ''prefix'' \<longrightarrow> startswith (lower (prefix st0)) (base_url ns)"
    "determine_level ns r st0 = Inr st"
  using assms
  by (auto simp: resolve_rule_def split: list.splits if_splits sum.splits)

lemma resolve_rule_locals:
  assumes "resolve_rule ns r = Inr st"
  shows "rule_types r = [rule_type st]
    \<and> path st = (case r ''path'' of None \<Rightarrow> '''' | Some p \<Rightarrow> p)
    \<and> prefix st = (case r ''prefix'' of None \<Rightarrow> '''' | Some p \<Rightarrow> p)"
proof -
  from assms obtain t st0 where t: "rule_types r = [t]"
    and h: "handle_rule ns t r = Inr st0"
    and d: "determine_level ns r st0 = Inr st"
    by (rule resolve_rule_Inr)
  from handle_rule_locals [OF h t] determine_level_locals [OF d] t show ?thesis by simp
qed

lemma top_allowed_shape:
  assumes "resolve_rule ns r = Inr st"
  shows "top_allowed ns st \<longleftrightarrow> top_shape ns r"
proof -
  from resolve_rule_locals [OF assms] have t: "rule_types r = [rule_type st]"
    and p: "path st = (case r ''path'' of None \<Rightarrow> '''' | Some p \<Rightarrow> p)"
    and q: "prefix st = (case r ''prefix'' of None \<Rightarrow> '''' | Some p \<Rightarrow> p)"
    by simp_all
  from rule_types_single [OF t] show ?thesis
    using t p q base_url_nonempty [of ns]
    by (auto simp: top_allowed_def top_shape_def rule_types_path rule_types_prefix
        rule_types_regex rule_types_term_browser split: option.splits)
qed

lemma effective_level_Some:
  "effective_level ns r = Some lv \<longleftrightarrow> (\<exists>st. resolve_rule ns r = Inr st \<and> rule_level st = lv)"
  by (auto simp: effective_level_def split: sum.splits)

lemma process_rule_top_level:
  assumes "resolve_rule ns r = Inr st" and "rule_level st = ''top''"
  shows "process_rule ''top'' ns (YMap r) = Inl TopLevelPollution \<longleftrightarrow> \<not> top_allowed ns st"
  using assms by (auto simp: process_rule_def split: option.splits)

lemma resolve_rule_bad_path:
  assumes "rule_types r = [''path'']" and "r ''path'' = Some p"
    and "\<not> startswith (lower p) (base_url ns)"
  shows "resolve_rule ns r =
           (if bad_replacement ''path'' r then Inl ReplacementError else Inl NamespaceMismatch)"
  using assms by (simp add: resolve_rule_def handle_rule_def init_locals_def)

lemma resolve_rule_bad_prefix:
  assumes "rule_types r = [''prefix'']" and "r ''prefix'' = Some p"
    and "\<not> startswith (lower p) (base_url ns)"
  shows "resolve_rule ns r =
           (if bad_replacement ''prefix'' r then Inl ReplacementError else Inl NamespaceMismatch)"
  using assms by (simp add: resolve_rule_def handle_rule_def init_locals_def)

section \<open>The type of a rule\<close>

text \<open>
  Claim C5. A rule that has none of the four type fields \<^verbatim>\<open>path\<close>, \<^verbatim>\<open>prefix\<close>,
  \<^verbatim>\<open>regex\<close>, \<^verbatim>\<open>term_browser\<close> fails with \<open>MissingType\<close>, and a rule that has two or
  more of them fails with \<open>MultipleTypes\<close>, whatever the processing level, the
  namespace and the other fields are: no other check comes first.
\<close>

theorem type_classification:
  "(card ({''path'', ''prefix'', ''regex'', ''term_browser''} \<inter> dom r) = 0 \<longrightarrow>
      process_rule m ns (YMap r) = Inl MissingType) \<and>
   (2 \<le> card ({''path'', ''prefix'', ''regex'', ''term_browser''} \<inter> dom r) \<longrightarrow>
      process_rule m ns (YMap r) = Inl MultipleTypes)"
  using resolve_rule_no_type [of r ns] resolve_rule_many_types [of r ns]
  by (simp add: rule_types_length [symmetric] process_rule_resolve_error)

theorem type_classification_witness:
  "card ({''path'', ''prefix'', ''regex'', ''term_browser''} \<inter> dom [''replacement'' \<mapsto> ''foo''])
     = 0 \<and>
   process_rule ''project'' ''OBI'' (YMap [''replacement'' \<mapsto> ''foo'']) = Inl MissingType \<and>
   2 \<le> card ({''path'', ''prefix'', ''regex'', ''term_browser''} \<inter>
             dom [''path'' \<mapsto> ''foo'', ''prefix'' \<mapsto> ''foo'']) \<and>
   process_rule ''project'' ''OBI'' (YMap [''path'' \<mapsto> ''foo'', ''prefix'' \<mapsto> ''foo''])
     = Inl MultipleTypes"
  using type_classification [of "[''replacement'' \<mapsto> ''foo'']" "''project''" "''OBI''"]
    type_classification [of "[''path'' \<mapsto> ''foo'', ''prefix'' \<mapsto> ''foo'']" "''project''" "''OBI''"]
  by (simp add: Int_insert_left)

section \<open>The replacement\<close>

text \<open>
  Claim C7. A rule whose one type is \<^verbatim>\<open>path\<close>, \<^verbatim>\<open>prefix\<close> or \<^verbatim>\<open>regex\<close> and whose
  \<^verbatim>\<open>replacement\<close> is missing, or empty once stripped, fails with \<open>ReplacementError\<close>;
  a \<^verbatim>\<open>term_browser\<close> rule that has a \<^verbatim>\<open>replacement\<close> fails, with the same error.
\<close>

theorem replacement_validation:
  "(rule_types r = [t] \<and> (t = ''path'' \<or> t = ''prefix'' \<or> t = ''regex'') \<and>
      (r ''replacement'' = None \<or> (\<exists>v. r ''replacement'' = Some v \<and> strip v = ''''))
      \<longrightarrow> process_rule m ns (YMap r) = Inl ReplacementError) \<and>
   (rule_types r = [''term_browser''] \<and> r ''replacement'' \<noteq> None
      \<longrightarrow> process_rule m ns (YMap r) = Inl ReplacementError)"
  by (auto simp: process_rule_def resolve_rule_def bad_replacement_def)

theorem replacement_validation_witness:
  "rule_types [''path'' \<mapsto> ''/obo/obi/x''] = [''path''] \<and>
   process_rule ''project'' ''OBI'' (YMap [''path'' \<mapsto> ''/obo/obi/x'']) = Inl ReplacementError \<and>
   rule_types [''regex'' \<mapsto> ''^/obo/obi$'', ''replacement'' \<mapsto> ''  '', ''level'' \<mapsto> ''top'']
     = [''regex''] \<and>
   strip ''  '' = '''' \<and>
   process_rule ''top'' ''OBI''
     (YMap [''regex'' \<mapsto> ''^/obo/obi$'', ''replacement'' \<mapsto> ''  '', ''level'' \<mapsto> ''top''])
     = Inl ReplacementError \<and>
   rule_types [''term_browser'' \<mapsto> ''ontobee'', ''replacement'' \<mapsto> ''foo''] = [''term_browser''] \<and>
   process_rule ''top'' ''OBI'' (YMap [''term_browser'' \<mapsto> ''ontobee'', ''replacement'' \<mapsto> ''foo''])
     = Inl ReplacementError"
  using replacement_validation [of "[''path'' \<mapsto> ''/obo/obi/x'']" "''path''" "''project''" "''OBI''"]
    replacement_validation [of
      "[''regex'' \<mapsto> ''^/obo/obi$'', ''replacement'' \<mapsto> ''  '', ''level'' \<mapsto> ''top'']"
      "''regex''" "''top''" "''OBI''"]
    replacement_validation [of "[''term_browser'' \<mapsto> ''ontobee'', ''replacement'' \<mapsto> ''foo'']"
      "''term_browser''" "''top''" "''OBI''"]
  by (simp add: rule_types_def strip_def isspace_def)

section \<open>The namespace\<close>

text \<open>
  Claim C4, as stated, at a path rule of another namespace that has no replacement:
  the rule fails, but with \<open>ReplacementError\<close>, since the replacement is checked before
  the namespace.
\<close>

theorem namespace_check_counterexample:
  "rule_types [''path'' \<mapsto> ''/obo/chebi/''] = [''path''] \<and>
   \<not> startswith (lower ''/obo/chebi/'') (base_url ''OBI'') \<and>
   process_rule ''project'' ''OBI'' (YMap [''path'' \<mapsto> ''/obo/chebi/'']) = Inl ReplacementError \<and>
   process_rule ''project'' ''OBI'' (YMap [''path'' \<mapsto> ''/obo/chebi/'']) \<noteq> Inl NamespaceMismatch"
  by (simp add: eval_defs)

text \<open>
  Claim C4, amended. The base URL is \<^verbatim>\<open>/obo\<close> for the namespace \<^verbatim>\<open>OBO\<close> (compared as
  it is written) and \<^verbatim>\<open>/obo/\<close> followed by the namespace in lower case otherwise. A rule
  whose one type is \<^verbatim>\<open>path\<close> or \<^verbatim>\<open>prefix\<close> and whose value, in lower case, does not
  start with the base URL fails at every processing level: with \<open>NamespaceMismatch\<close>
  when its replacement is present and not blank, and with \<open>ReplacementError\<close> otherwise.
\<close>

theorem namespace_check:
  "base_url ns = (if ns = ''OBO'' then ''/obo'' else ''/obo/'' @ lower ns) \<and>
   ((t = ''path'' \<or> t = ''prefix'') \<and> rule_types r = [t] \<and> r t = Some p \<and>
    \<not> startswith (lower p) (base_url ns) \<longrightarrow>
      process_rule m ns (YMap r) =
        (if r ''replacement'' = None \<or> strip (the (r ''replacement'')) = ''''
         then Inl ReplacementError else Inl NamespaceMismatch))"
  using resolve_rule_bad_path [of r p ns] resolve_rule_bad_prefix [of r p ns]
  by (auto simp: process_rule_resolve_error base_url_def bad_replacement_def
      split: option.splits)

theorem namespace_check_witness:
  "rule_types [''path'' \<mapsto> ''/obo/chebi/'', ''replacement'' \<mapsto> ''foo''] = [''path''] \<and>
   \<not> startswith (lower ''/obo/chebi/'') (base_url ''OBI'') \<and>
   process_rule ''project'' ''OBI'' (YMap [''path'' \<mapsto> ''/obo/chebi/'', ''replacement'' \<mapsto> ''foo''])
     = Inl NamespaceMismatch \<and>
   process_rule ''top'' ''OBI'' (YMap [''path'' \<mapsto> ''/obo/chebi/'', ''replacement'' \<mapsto> ''foo''])
     = Inl NamespaceMismatch"
proof -
  have a: "rule_types [''path'' \<mapsto> ''/obo/chebi/'', ''replacement'' \<mapsto> ''foo''] = [''path'']"
    by (simp add: rule_types_def)
  have b: "\<not> startswith (lower ''/obo/chebi/'') (base_url ''OBI'')"
    by (simp add: startswith_def base_url_def lower_def lower_char_def)
  have c: "strip ''foo'' \<noteq> ''''"
    by (simp add: strip_def isspace_def)
  from a b c
    namespace_check [of "''OBI''" "''path''"
      "[''path'' \<mapsto> ''/obo/chebi/'', ''replacement'' \<mapsto> ''foo'']" "''/obo/chebi/''" "''project''"]
    namespace_check [of "''OBI''" "''path''"
      "[''path'' \<mapsto> ''/obo/chebi/'', ''replacement'' \<mapsto> ''foo'']" "''/obo/chebi/''" "''top''"]
  show ?thesis by simp
qed

section \<open>The rules of the top level\<close>

text \<open>
  Claim C2. At the processing level \<^verbatim>\<open>top\<close>, a rule whose level resolves to \<^verbatim>\<open>top\<close>
  fails with \<open>TopLevelPollution\<close> exactly when it has none of the allowed shapes: a regex
  rule, a term browser rule, a path equal to the base URL or to the base URL followed
  by \<^verbatim>\<open>.owl\<close> or \<^verbatim>\<open>.obo\<close>, a prefix equal to \<^verbatim>\<open>/obo/\<close>, the namespace as it is written,
  and an underscore. For the namespace \<^verbatim>\<open>OBI\<close>, the path rule \<^verbatim>\<open>/obo/obi_core.owl\<close> with the
  replacement \<^verbatim>\<open>foo\<close> fails so.
\<close>

theorem top_level_allow_list:
  "(effective_level ns r = Some ''top'' \<longrightarrow>
      (process_rule ''top'' ns (YMap r) = Inl TopLevelPollution \<longleftrightarrow> \<not> top_shape ns r)) \<and>
   process_rule ''top'' ''OBI''
     (YMap [''path'' \<mapsto> ''/obo/obi_core.owl'', ''replacement'' \<mapsto> ''foo'']) = Inl TopLevelPollution"
proof (intro conjI impI)
  assume "effective_level ns r = Some ''top''"
  then obtain st where st: "resolve_rule ns r = Inr st" "rule_level st = ''top''"
    by (auto simp: effective_level_Some)
  from process_rule_top_level [OF st] top_allowed_shape [OF st(1)]
  show "process_rule ''top'' ns (YMap r) = Inl TopLevelPollution \<longleftrightarrow> \<not> top_shape ns r"
    by simp
next
  show "process_rule ''top'' ''OBI''
      (YMap [''path'' \<mapsto> ''/obo/obi_core.owl'', ''replacement'' \<mapsto> ''foo'']) = Inl TopLevelPollution"
    by (simp add: eval_defs)
qed

theorem top_level_allow_list_witness:
  "effective_level ''OBI'' [''path'' \<mapsto> ''/obo/obi_core.owl'', ''replacement'' \<mapsto> ''foo'']
     = Some ''top'' \<and>
   \<not> top_shape ''OBI'' [''path'' \<mapsto> ''/obo/obi_core.owl'', ''replacement'' \<mapsto> ''foo''] \<and>
   process_rule ''top'' ''OBI''
     (YMap [''path'' \<mapsto> ''/obo/obi_core.owl'', ''replacement'' \<mapsto> ''foo'']) = Inl TopLevelPollution \<and>
   effective_level ''OBI'' [''path'' \<mapsto> ''/obo/obi.owl'', ''replacement'' \<mapsto> ''foo'']
     = Some ''top'' \<and>
   top_shape ''OBI'' [''path'' \<mapsto> ''/obo/obi.owl'', ''replacement'' \<mapsto> ''foo''] \<and>
   process_rule ''top'' ''OBI'' (YMap [''path'' \<mapsto> ''/obo/obi.owl'', ''replacement'' \<mapsto> ''foo''])
     \<noteq> Inl TopLevelPollution"
proof -
  have a: "effective_level ''OBI'' [''path'' \<mapsto> ''/obo/obi_core.owl'', ''replacement'' \<mapsto> ''foo'']
     = Some ''top''"
    by (simp add: effective_level_def resolve_defs rule_types_def lower_def lower_char_def
        startswith_def base_url_def strip_def isspace_def)
  have b: "\<not> top_shape ''OBI'' [''path'' \<mapsto> ''/obo/obi_core.owl'', ''replacement'' \<mapsto> ''foo'']"
    by (simp add: top_shape_def base_url_def lower_def lower_char_def)
  have c: "effective_level ''OBI'' [''path'' \<mapsto> ''/obo/obi.owl'', ''replacement'' \<mapsto> ''foo'']
     = Some ''top''"
    by (simp add: effective_level_def resolve_defs rule_types_def lower_def lower_char_def
        startswith_def base_url_def strip_def isspace_def)
  have d: "top_shape ''OBI'' [''path'' \<mapsto> ''/obo/obi.owl'', ''replacement'' \<mapsto> ''foo'']"
    by (simp add: top_shape_def base_url_def lower_def lower_char_def)
  from a b c d
    top_level_allow_list [of "''OBI''"
      "[''path'' \<mapsto> ''/obo/obi_core.owl'', ''replacement'' \<mapsto> ''foo'']"]
    top_level_allow_list [of "''OBI''"
      "[''path'' \<mapsto> ''/obo/obi.owl'', ''replacement'' \<mapsto> ''foo'']"]
  show ?thesis by simp
qed

section \<open>The level of a rule\<close>

lemma startswith_Nil: "p \<noteq> [] \<Longrightarrow> \<not> startswith [] p"
  by (auto simp: startswith_def)

lemma handle_rule_level:
  "handle_rule ns t r = Inr st \<Longrightarrow> rule_level st = ''top''"
  by (auto simp: handle_rule_def init_locals_def Let_def split: if_splits)

lemma handle_rule_status:
  "handle_rule ns t r = Inr st \<Longrightarrow>
     status st = (if t = ''term_browser'' then ''see other'' else ''temporary'')"
  by (auto simp: handle_rule_def init_locals_def Let_def split: if_splits)


lemma determine_level_range:
  assumes "determine_level ns r st = Inr st'" and "rule_level st = ''top''"
  shows "rule_level st' = ''project'' \<or> rule_level st' = ''top''"
  using assms by (auto simp: determine_level_def split: option.splits if_splits)


lemma resolve_rule_level_range:
  assumes "resolve_rule ns r = Inr st"
  shows "rule_level st = ''project'' \<or> rule_level st = ''top''"
proof -
  from assms obtain t st0 where h: "handle_rule ns t r = Inr st0"
    and d: "determine_level ns r st0 = Inr st"
    by (rule resolve_rule_Inr)
  from determine_level_range [OF d handle_rule_level [OF h]] show ?thesis .
qed

lemma resolve_rule_status:
  assumes "resolve_rule ns r = Inr st"
  shows "status st = (if rule_type st = ''term_browser'' then ''see other'' else ''temporary'')"
proof -
  from assms obtain t st0 where t: "rule_types r = [t]"
    and h: "handle_rule ns t r = Inr st0"
    and d: "determine_level ns r st0 = Inr st"
    by (rule resolve_rule_Inr)
  from handle_rule_locals [OF h t] handle_rule_status [OF h] determine_level_locals [OF d]
  show ?thesis by simp
qed

lemma process_rule_filtered:
  assumes "resolve_rule ns r = Inr st"
    and "m = ''project'' \<and> rule_level st = ''top'' \<or> m = ''top'' \<and> rule_level st = ''project''"
  shows "process_rule m ns (YMap r) = Inr None"
  using assms by (auto simp: process_rule_def)


lemma handle_rule_error:
  "handle_rule ns t r = Inl e \<Longrightarrow> e = MissingLevel \<or> e = UnknownBrowser"
  by (auto simp: handle_rule_def Let_def split: if_splits)

lemma determine_level_error:
  "determine_level ns r st = Inl e \<Longrightarrow> e = InvalidLevel"
  by (auto simp: determine_level_def split: option.splits if_splits)

lemma resolve_rule_error:
  assumes "resolve_rule ns r = Inl e"
  shows "e \<noteq> TopLevelPollution \<and> e \<noteq> InvalidStatus \<and> e \<noteq> NotAMap"
proof (cases "rule_types r")
  case Nil
  with assms show ?thesis by (simp add: resolve_rule_def)
next
  case (Cons t ts)
  show ?thesis
  proof (cases ts)
    case (Cons u us)
    with \<open>rule_types r = t # ts\<close> assms show ?thesis by (simp add: resolve_rule_def)
  next
    case Nil
    with \<open>rule_types r = t # ts\<close> have t: "rule_types r = [t]" by simp
    show ?thesis
    proof (cases "handle_rule ns t r")
      case (Inl e')
      with assms t handle_rule_error [OF Inl] show ?thesis
        by (auto simp: resolve_rule_def split: if_splits)
    next
      case (Inr st)
      with assms t determine_level_error [of ns r st e] show ?thesis
        by (auto simp: resolve_rule_def split: if_splits)
    qed
  qed
qed

lemma process_rule_InvalidStatus:
  assumes "process_rule m ns y = Inl InvalidStatus"
  obtains r st where "y = YMap r" "resolve_rule ns r = Inr st"
    "\<not> (m = ''project'' \<and> rule_level st = ''top'')"
    "\<not> (m = ''top'' \<and> rule_level st = ''project'')"
    "m = ''top'' \<longrightarrow> top_allowed ns st"
proof (cases y)
  case YOther
  with assms show ?thesis by (simp add: process_rule_def)
next
  case (YMap r)
  show ?thesis
  proof (cases "resolve_rule ns r")
    case (Inl e)
    with assms YMap resolve_rule_error [OF Inl] show ?thesis
      by (simp add: process_rule_def)
  next
    case (Inr st)
    with assms YMap show ?thesis
      by (intro that [of r st]) (auto simp: process_rule_def split: if_splits)
  qed
qed



section \<open>Filtering on the processing level\<close>

text \<open>
  Claim C10. A rule that passes the checks up to the level, and whose level is not the
  processing level, gives no output and no error, whatever its \<^verbatim>\<open>status\<close> field holds;
  and when \<^verbatim>\<open>process_rule\<close> fails with \<open>InvalidStatus\<close>, the rule has passed those
  checks, has not been filtered out and, at the processing level \<^verbatim>\<open>top\<close>, has one
  of the allowed shapes.
\<close>

theorem mode_filter_before_status:
  "(effective_level ns r = Some lv \<and> (m = ''project'' \<or> m = ''top'') \<and> lv \<noteq> m \<longrightarrow>
      process_rule m ns (YMap r) = Inr None) \<and>
   (process_rule m ns y = Inl InvalidStatus \<longrightarrow>
      (\<exists>r lv. y = YMap r \<and> effective_level ns r = Some lv \<and>
         \<not> (m = ''project'' \<and> lv = ''top'') \<and> \<not> (m = ''top'' \<and> lv = ''project'') \<and>
         (m = ''top'' \<longrightarrow> top_shape ns r)))"
proof (intro conjI impI)
  assume a: "effective_level ns r = Some lv \<and> (m = ''project'' \<or> m = ''top'') \<and> lv \<noteq> m"
  then obtain st where st: "resolve_rule ns r = Inr st" "rule_level st = lv"
    by (auto simp: effective_level_Some)
  from resolve_rule_level_range [OF st(1)] st(2) a
  have "m = ''project'' \<and> rule_level st = ''top'' \<or> m = ''top'' \<and> rule_level st = ''project''"
    by auto
  from process_rule_filtered [OF st(1) this]
  show "process_rule m ns (YMap r) = Inr None" .
next
  assume "process_rule m ns y = Inl InvalidStatus"
  then obtain r st where r: "y = YMap r" "resolve_rule ns r = Inr st"
    "\<not> (m = ''project'' \<and> rule_level st = ''top'')"
    "\<not> (m = ''top'' \<and> rule_level st = ''project'')"
    "m = ''top'' \<longrightarrow> top_allowed ns st"
    by (rule process_rule_InvalidStatus)
  from r top_allowed_shape [OF r(2)]
  show "\<exists>r lv. y = YMap r \<and> effective_level ns r = Some lv \<and>
         \<not> (m = ''project'' \<and> lv = ''top'') \<and> \<not> (m = ''top'' \<and> lv = ''project'') \<and>
         (m = ''top'' \<longrightarrow> top_shape ns r)"
    by (auto simp: effective_level_def)
qed

theorem mode_filter_before_status_witness:
  "effective_level ''OBI''
     [''path'' \<mapsto> ''/obo/obi/x'', ''replacement'' \<mapsto> ''foo'', ''status'' \<mapsto> ''gone'']
     = Some ''project'' \<and>
   process_rule ''top'' ''OBI''
     (YMap [''path'' \<mapsto> ''/obo/obi/x'', ''replacement'' \<mapsto> ''foo'', ''status'' \<mapsto> ''gone''])
     = Inr None \<and>
   process_rule ''project'' ''OBI''
     (YMap [''path'' \<mapsto> ''/obo/obi/x'', ''replacement'' \<mapsto> ''foo'', ''status'' \<mapsto> ''gone''])
     = Inl InvalidStatus \<and>
   (\<exists>r lv. YMap [''path'' \<mapsto> ''/obo/obi/x'', ''replacement'' \<mapsto> ''foo'', ''status'' \<mapsto> ''gone'']
       = YMap r \<and> effective_level ''OBI'' r = Some lv \<and> lv \<noteq> ''top'')"
proof -
  let ?r = "[''path'' \<mapsto> ''/obo/obi/x'', ''replacement'' \<mapsto> ''foo'', ''status'' \<mapsto> ''gone'']"
  have a: "effective_level ''OBI'' ?r = Some ''project''"
    by (simp add: effective_level_def resolve_defs rule_types_def lower_def lower_char_def
        startswith_def base_url_def strip_def isspace_def)
  have b: "process_rule ''project'' ''OBI'' (YMap ?r) = Inl InvalidStatus"
    by (simp add: eval_defs)
  have c: "process_rule ''top'' ''OBI'' (YMap ?r) = Inr None"
    by (rule mode_filter_before_status [of "''OBI''" ?r "''project''" "''top''",
          THEN conjunct1, THEN mp]) (simp add: a)
  from mode_filter_before_status [of "''OBI''" ?r "''project''" "''project''" "YMap ?r",
      THEN conjunct2, THEN mp, OF b]
  have d: "\<exists>r lv. YMap ?r = YMap r \<and> effective_level ''OBI'' r = Some lv \<and> lv \<noteq> ''top''"
    by blast
  from a b c d show ?thesis
    by blast
qed

section \<open>The status and the directive\<close>

lemma process_rule_emit:
  assumes "resolve_rule ns r = Inr st"
    and "\<not> (m = ''project'' \<and> rule_level st = ''top'')"
    and "\<not> (m = ''top'' \<and> rule_level st = ''project'')"
    and "m = ''top'' \<longrightarrow> top_allowed ns st"
  shows "process_rule m ns (YMap r) =
     (case r ''status'' of
        None \<Rightarrow> Inr (Some (directive (apache_status (status st)) (source st) (replacement st)))
      | Some s \<Rightarrow>
          if s = ''permanent'' \<or> s = ''temporary'' \<or> s = ''see other''
          then Inr (Some (directive (apache_status s) (source st) (replacement st)))
          else Inl InvalidStatus)"
  using assms by (auto simp: process_rule_def split: option.splits)

lemma clean_source_go: "clean_source ''/obo/GO_'' = ''/obo/GO_''"
  by (simp add: clean_source_def strip_def isspace_def re_escape_def re_special_def
      startswith_def replace.simps)

text \<open>
  Claim C8, as stated, at the term browser rule \<^verbatim>\<open>ontobee\<close> of the namespace \<^verbatim>\<open>GO\<close>: the
  rule has no \<^verbatim>\<open>status\<close> field and is not left out at the level \<^verbatim>\<open>top\<close>, and its
  status is \<^verbatim>\<open>see other\<close>, not \<^verbatim>\<open>temporary\<close>.
\<close>

theorem status_counterexample:
  "[''term_browser'' \<mapsto> ''ontobee''] ''status'' = None \<and>
   process_rule ''top'' ''GO'' (YMap [''term_browser'' \<mapsto> ''ontobee'']) =
     Inr (Some (''RedirectMatch seeother '' @ [dquote] @ ''(?i)^/obo/GO_('' @ [backslash] @
       ''d+)$'' @ [dquote] @ '' '' @ [dquote] @
       ''http://www.ontobee.org/browser/rdf.php?o=GO&iri=http://purl.obolibrary.org/obo/GO_$1'' @
       [dquote]))"
  by (simp add: eval_defs)

text \<open>
  Claim C8, amended. Take a rule that passes the checks up to the level, is not
  filtered out at the processing level and, at the level \<^verbatim>\<open>top\<close>, is allowed there.
  With no \<^verbatim>\<open>status\<close> field its status is \<^verbatim>\<open>temporary\<close> (keyword \<^verbatim>\<open>temp\<close>), unless it
  is a term browser rule, whose status is then \<^verbatim>\<open>see other\<close> (keyword \<^verbatim>\<open>seeother\<close>).
  An explicit status other than \<^verbatim>\<open>permanent\<close>, \<^verbatim>\<open>temporary\<close> and \<^verbatim>\<open>see other\<close> fails with
  \<open>InvalidStatus\<close>. Otherwise the result is the string \<^verbatim>\<open>RedirectMatch\<close>, the keyword
  (\<^verbatim>\<open>permanent\<close>, \<^verbatim>\<open>temp\<close> or \<^verbatim>\<open>seeother\<close>), the source and the replacement, the last two
  in double quotes, with one space between them.
\<close>

theorem status_and_directive:
  "resolve_rule ns r = Inr st \<and>
   \<not> (m = ''project'' \<and> rule_level st = ''top'') \<and>
   \<not> (m = ''top'' \<and> rule_level st = ''project'') \<and>
   (m = ''top'' \<longrightarrow> top_allowed ns st) \<longrightarrow>
     process_rule m ns (YMap r) =
       (case r ''status'' of
          None \<Rightarrow>
            Inr (Some (''RedirectMatch '' @
              (if rule_type st = ''term_browser'' then ''seeother'' else ''temp'') @
              '' '' @ [dquote] @ source st @ [dquote] @ '' '' @ [dquote] @ replacement st @
              [dquote]))
        | Some s \<Rightarrow>
            if s = ''permanent'' \<or> s = ''temporary'' \<or> s = ''see other''
            then Inr (Some (''RedirectMatch '' @
              (if s = ''permanent'' then ''permanent''
               else if s = ''temporary'' then ''temp'' else ''seeother'') @
              '' '' @ [dquote] @ source st @ [dquote] @ '' '' @ [dquote] @ replacement st @
              [dquote]))
            else Inl InvalidStatus)"
proof
  assume a: "resolve_rule ns r = Inr st \<and>
   \<not> (m = ''project'' \<and> rule_level st = ''top'') \<and>
   \<not> (m = ''top'' \<and> rule_level st = ''project'') \<and>
   (m = ''top'' \<longrightarrow> top_allowed ns st)"
  then have res: "resolve_rule ns r = Inr st" by simp
  from a have "process_rule m ns (YMap r) =
     (case r ''status'' of
        None \<Rightarrow> Inr (Some (directive (apache_status (status st)) (source st) (replacement st)))
      | Some s \<Rightarrow>
          if s = ''permanent'' \<or> s = ''temporary'' \<or> s = ''see other''
          then Inr (Some (directive (apache_status s) (source st) (replacement st)))
          else Inl InvalidStatus)"
    by (intro process_rule_emit) simp_all
  with resolve_rule_status [OF res]
  show "process_rule m ns (YMap r) =
       (case r ''status'' of
          None \<Rightarrow>
            Inr (Some (''RedirectMatch '' @
              (if rule_type st = ''term_browser'' then ''seeother'' else ''temp'') @
              '' '' @ [dquote] @ source st @ [dquote] @ '' '' @ [dquote] @ replacement st @
              [dquote]))
        | Some s \<Rightarrow>
            if s = ''permanent'' \<or> s = ''temporary'' \<or> s = ''see other''
            then Inr (Some (''RedirectMatch '' @
              (if s = ''permanent'' then ''permanent''
               else if s = ''temporary'' then ''temp'' else ''seeother'') @
              '' '' @ [dquote] @ source st @ [dquote] @ '' '' @ [dquote] @ replacement st @
              [dquote]))
            else Inl InvalidStatus)"
    by (simp add: directive_def apache_status_def split: option.splits)
qed

theorem status_and_directive_witness:
  "resolve_rule ''GO'' [''prefix'' \<mapsto> ''/obo/GO_'', ''replacement'' \<mapsto> ''http://example.org/go_'']
     = Inr \<lparr>rule_type = ''prefix'', path = '''', prefix = ''/obo/GO_'',
            source = ''(?i)^/obo/GO_(.*)$'', replacement = ''http://example.org/go_$1'',
            rule_level = ''top'', status = ''temporary''\<rparr> \<and>
   top_allowed ''GO'' \<lparr>rule_type = ''prefix'', path = '''', prefix = ''/obo/GO_'',
            source = ''(?i)^/obo/GO_(.*)$'', replacement = ''http://example.org/go_$1'',
            rule_level = ''top'', status = ''temporary''\<rparr> \<and>
   process_rule ''top'' ''GO''
     (YMap [''prefix'' \<mapsto> ''/obo/GO_'', ''replacement'' \<mapsto> ''http://example.org/go_'']) =
     Inr (Some (''RedirectMatch temp '' @ [dquote] @ ''(?i)^/obo/GO_(.*)$'' @ [dquote] @ '' '' @
       [dquote] @ ''http://example.org/go_$1'' @ [dquote]))"
proof -
  let ?r = "[''prefix'' \<mapsto> ''/obo/GO_'', ''replacement'' \<mapsto> ''http://example.org/go_'']"
  let ?st = "\<lparr>rule_type = ''prefix'', path = '''', prefix = ''/obo/GO_'',
            source = ''(?i)^/obo/GO_(.*)$'', replacement = ''http://example.org/go_$1'',
            rule_level = ''top'', status = ''temporary''\<rparr>"
  have a: "resolve_rule ''GO'' ?r = Inr ?st"
    by (simp add: resolve_defs rule_types_def lower_def lower_char_def startswith_def
        base_url_def strip_def isspace_def clean_source_go)
  have b: "top_allowed ''GO'' ?st"
    by (simp add: top_allowed_def)
  have c: "?r ''status'' = None"
    by simp
  from status_and_directive [of "''GO''" ?r ?st "''top''"] a b c
  have "process_rule ''top'' ''GO'' (YMap ?r) =
     Inr (Some (''RedirectMatch temp '' @ [dquote] @ ''(?i)^/obo/GO_(.*)$'' @ [dquote] @ '' '' @
       [dquote] @ ''http://example.org/go_$1'' @ [dquote]))"
    by simp
  with a b show ?thesis by simp
qed

section \<open>An invalid level\<close>

lemma rule_types_level_upd: "rule_types (r(''level'' \<mapsto> l)) = rule_types r"
  by (simp add: rule_types_def)

lemma bad_replacement_level_upd: "bad_replacement t (r(''level'' \<mapsto> l)) = bad_replacement t r"
  by (simp add: bad_replacement_def)

lemma handle_rule_level_upd:
  "r ''level'' \<noteq> None \<Longrightarrow> handle_rule ns t (r(''level'' \<mapsto> l)) = handle_rule ns t r"
  by (auto simp: handle_rule_def Let_def)

lemma determine_level_invalid:
  "r ''level'' = Some l \<Longrightarrow> lower l \<noteq> ''project'' \<Longrightarrow> lower l \<noteq> ''top'' \<Longrightarrow>
     determine_level ns r st = Inl InvalidLevel"
  by (simp add: determine_level_def)

lemma determine_level_top:
  "determine_level ns (r(''level'' \<mapsto> ''top'')) st = Inr (st\<lparr>rule_level := ''top''\<rparr>)"
  by (simp add: determine_level_def lower_def lower_char_def)

lemma resolve_rule_invalid_level:
  assumes "r ''level'' = Some l" and "lower l \<noteq> ''project''" and "lower l \<noteq> ''top''"
  shows "resolve_rule ns r =
     (case resolve_rule ns (r(''level'' \<mapsto> ''top'')) of
        Inl e \<Rightarrow> Inl e
      | Inr st \<Rightarrow> Inl InvalidLevel)"
proof -
  have l: "r ''level'' \<noteq> None" using assms by simp
  note inv = determine_level_invalid [of r l, OF assms]
  note upd = handle_rule_level_upd [of r, OF l]
  show ?thesis
    by (auto simp: resolve_rule_def rule_types_level_upd bad_replacement_level_upd
        upd inv determine_level_top split: list.splits sum.splits)
qed

lemma resolve_rule_valid_level_error:
  assumes "resolve_rule ns (r(''level'' \<mapsto> ''top'')) = Inl e"
  shows "e \<noteq> InvalidLevel"
proof
  assume e: "e = InvalidLevel"
  let ?r = "r(''level'' \<mapsto> ''top'')"
  show False
  proof (cases "rule_types ?r")
    case Nil
    with assms e show False by (simp add: resolve_rule_def)
  next
    case (Cons t ts)
    show False
    proof (cases ts)
      case (Cons u us)
      with \<open>rule_types ?r = t # ts\<close> assms e show False by (simp add: resolve_rule_def)
    next
      case Nil
      with \<open>rule_types ?r = t # ts\<close> have t: "rule_types ?r = [t]" by simp
      show False
      proof (cases "handle_rule ns t ?r")
        case (Inl e')
        with assms t e handle_rule_error [OF Inl] show False
          by (auto simp: resolve_rule_def split: if_splits)
      next
        case (Inr st)
        with assms t e show False
          by (auto simp: resolve_rule_def determine_level_top split: if_splits)
      qed
    qed
  qed
qed

text \<open>
  Claim C9, as stated, at two rules. The first is the input of the unit test
  \<^verbatim>\<open>test_invalid_level\<close>: its level is \<^verbatim>\<open>bar\<close>, but its path \<^verbatim>\<open>foo\<close> is outside the
  namespace, and the namespace is checked first. The second has the level \<^verbatim>\<open>TOP\<close>,
  which is neither of the two strings \<^verbatim>\<open>project\<close> and \<^verbatim>\<open>top\<close>; the level is compared
  in lower case, and no error is raised.
\<close>

theorem invalid_level_counterexample:
  "process_rule ''project'' ''OBI''
     (YMap [''level'' \<mapsto> ''bar'', ''path'' \<mapsto> ''foo'', ''replacement'' \<mapsto> ''foo''])
     = Inl NamespaceMismatch \<and>
   ''TOP'' \<noteq> ''project'' \<and> ''TOP'' \<noteq> ''top'' \<and>
   process_rule ''project'' ''OBI''
     (YMap [''level'' \<mapsto> ''TOP'', ''path'' \<mapsto> ''/obo/obi/x'', ''replacement'' \<mapsto> ''foo''])
     = Inr None"
  by (simp add: eval_defs)

text \<open>
  Claim C9, amended. A rule with an explicit level that is, in lower case, neither
  \<^verbatim>\<open>project\<close> nor \<^verbatim>\<open>top\<close> fails at every processing level and for every type; it
  is never left out. The error is \<open>InvalidLevel\<close> exactly when the rule passes the
  checks that come before the level, which is to say when the same rule with the level
  \<^verbatim>\<open>top\<close> resolves; otherwise it is the error of the first of those checks that fails.
\<close>

theorem invalid_level:
  "r ''level'' = Some l \<and> lower l \<noteq> ''project'' \<and> lower l \<noteq> ''top'' \<longrightarrow>
     (\<exists>e. process_rule m ns (YMap r) = Inl e) \<and>
     (process_rule m ns (YMap r) = Inl InvalidLevel \<longleftrightarrow>
        (\<exists>st. resolve_rule ns (r(''level'' \<mapsto> ''top'')) = Inr st))"
proof
  assume a: "r ''level'' = Some l \<and> lower l \<noteq> ''project'' \<and> lower l \<noteq> ''top''"
  then have res: "resolve_rule ns r =
     (case resolve_rule ns (r(''level'' \<mapsto> ''top'')) of
        Inl e \<Rightarrow> Inl e
      | Inr st \<Rightarrow> Inl InvalidLevel)"
    using resolve_rule_invalid_level [of r l ns] by simp
  show "(\<exists>e. process_rule m ns (YMap r) = Inl e) \<and>
     (process_rule m ns (YMap r) = Inl InvalidLevel \<longleftrightarrow>
        (\<exists>st. resolve_rule ns (r(''level'' \<mapsto> ''top'')) = Inr st))"
  proof (cases "resolve_rule ns (r(''level'' \<mapsto> ''top''))")
    case (Inl e)
    with res resolve_rule_valid_level_error [OF Inl] show ?thesis
      by (simp add: process_rule_resolve_error)
  next
    case (Inr st)
    with res show ?thesis
      by (simp add: process_rule_resolve_error)
  qed
qed

theorem invalid_level_witness:
  "[''level'' \<mapsto> ''bar'', ''path'' \<mapsto> ''/obo/obi'', ''replacement'' \<mapsto> ''foo''] ''level''
     = Some ''bar'' \<and>
   lower ''bar'' \<noteq> ''project'' \<and> lower ''bar'' \<noteq> ''top'' \<and>
   process_rule ''project'' ''OBI''
     (YMap [''level'' \<mapsto> ''bar'', ''path'' \<mapsto> ''/obo/obi'', ''replacement'' \<mapsto> ''foo''])
     = Inl InvalidLevel"
proof -
  let ?r = "[''level'' \<mapsto> ''bar'', ''path'' \<mapsto> ''/obo/obi'', ''replacement'' \<mapsto> ''foo'']"
  have a: "?r ''level'' = Some ''bar''" by simp
  have b: "lower ''bar'' \<noteq> ''project'' \<and> lower ''bar'' \<noteq> ''top''"
    by (simp add: lower_def lower_char_def)
  have c: "\<exists>st. resolve_rule ''OBI'' (?r(''level'' \<mapsto> ''top'')) = Inr st"
    by (simp add: resolve_defs rule_types_def lower_def lower_char_def startswith_def
        base_url_def strip_def isspace_def)
  from invalid_level [of ?r "''bar''" "''project''" "''OBI''"] a b c
  have "process_rule ''project'' ''OBI'' (YMap ?r) = Inl InvalidLevel"
    by blast
  with a b show ?thesis by simp
qed

section \<open>The term browser\<close>

lemma resolve_term_browser:
  assumes "rule_types r = [''term_browser'']" and "r ''term_browser'' = Some b"
    and "lower b = ''ontobee''" and "r ''replacement'' = None"
  shows "resolve_rule ns r =
     determine_level ns r
       \<lparr>rule_type = ''term_browser'', path = '''', prefix = '''',
        source = ''(?i)^/obo/'' @ ns @ ''_('' @ [backslash] @ ''d+)$'',
        replacement = ''http://www.ontobee.org/browser/rdf.php?o='' @ ns @
          ''&iri=http://purl.obolibrary.org/obo/'' @ ns @ ''_$1'',
        rule_level = ''top'', status = ''see other''\<rparr>"
  using assms
  by (simp add: resolve_rule_def bad_replacement_def handle_rule_def init_locals_def)

lemma resolve_term_browser_Inr:
  assumes "rule_types r = [''term_browser'']" and "r ''term_browser'' = Some b"
    and "lower b = ''ontobee''" and "r ''replacement'' = None"
    and "resolve_rule ns r = Inr st"
  shows "rule_type st = ''term_browser'' \<and>
     source st = ''(?i)^/obo/'' @ ns @ ''_('' @ [backslash] @ ''d+)$'' \<and>
     replacement st = ''http://www.ontobee.org/browser/rdf.php?o='' @ ns @
          ''&iri=http://purl.obolibrary.org/obo/'' @ ns @ ''_$1'' \<and>
     status st = ''see other''"
proof -
  from assms(5) resolve_term_browser [OF assms(1-4), of ns]
  have "determine_level ns r
       \<lparr>rule_type = ''term_browser'', path = '''', prefix = '''',
        source = ''(?i)^/obo/'' @ ns @ ''_('' @ [backslash] @ ''d+)$'',
        replacement = ''http://www.ontobee.org/browser/rdf.php?o='' @ ns @
          ''&iri=http://purl.obolibrary.org/obo/'' @ ns @ ''_$1'',
        rule_level = ''top'', status = ''see other''\<rparr> = Inr st"
    by simp
  from determine_level_locals [OF this] show ?thesis by simp
qed

text \<open>
  Claim C1, as stated, at two term browser rules of the namespace \<^verbatim>\<open>GO\<close>. With the
  explicit status \<^verbatim>\<open>permanent\<close> the directive has the keyword \<^verbatim>\<open>permanent\<close>, not
  \<^verbatim>\<open>seeother\<close>. With the explicit level \<^verbatim>\<open>project\<close> the level is \<^verbatim>\<open>project\<close>, and the
  rule is left out at the processing level \<^verbatim>\<open>top\<close>.
\<close>

theorem term_browser_counterexample:
  "process_rule ''top'' ''GO'' (YMap [''term_browser'' \<mapsto> ''ontobee'', ''status'' \<mapsto> ''permanent'']) =
     Inr (Some (''RedirectMatch permanent '' @ [dquote] @ ''(?i)^/obo/GO_('' @ [backslash] @
       ''d+)$'' @ [dquote] @ '' '' @ [dquote] @
       ''http://www.ontobee.org/browser/rdf.php?o=GO&iri=http://purl.obolibrary.org/obo/GO_$1'' @
       [dquote])) \<and>
   effective_level ''GO'' [''term_browser'' \<mapsto> ''ontobee'', ''level'' \<mapsto> ''project'']
     = Some ''project'' \<and>
   process_rule ''top'' ''GO'' (YMap [''term_browser'' \<mapsto> ''ontobee'', ''level'' \<mapsto> ''project''])
     = Inr None"
  by (simp add: eval_defs)

text \<open>
  Claim C1, amended. For a term browser rule whose value is \<^verbatim>\<open>ontobee\<close> in lower case
  (and that has no replacement), \<^verbatim>\<open>see other\<close> and \<^verbatim>\<open>top\<close> are the defaults of the status
  and of the level. With no \<^verbatim>\<open>level\<close> field the level is \<^verbatim>\<open>top\<close>: the rule is left out
  at the processing level \<^verbatim>\<open>project\<close>. With neither a \<^verbatim>\<open>level\<close> nor a \<^verbatim>\<open>status\<close> field,
  the directive at the level \<^verbatim>\<open>top\<close> has the keyword \<^verbatim>\<open>seeother\<close>. An explicit valid
  level is the level of the rule, and in every directive the rule gives, the keyword is
  \<^verbatim>\<open>seeother\<close> when there is no \<^verbatim>\<open>status\<close> field and the keyword of the explicit status
  otherwise.
\<close>

theorem term_browser_defaults:
  "rule_types r = [''term_browser''] \<and> r ''term_browser'' = Some b \<and> lower b = ''ontobee'' \<and>
   r ''replacement'' = None \<longrightarrow>
     (r ''level'' = None \<longrightarrow>
        effective_level ns r = Some ''top'' \<and> process_rule ''project'' ns (YMap r) = Inr None) \<and>
     (r ''level'' = None \<and> r ''status'' = None \<longrightarrow>
        process_rule ''top'' ns (YMap r) =
          Inr (Some (''RedirectMatch seeother '' @ [dquote] @ ''(?i)^/obo/'' @ ns @ ''_('' @
            [backslash] @ ''d+)$'' @ [dquote] @ '' '' @ [dquote] @
            ''http://www.ontobee.org/browser/rdf.php?o='' @ ns @
            ''&iri=http://purl.obolibrary.org/obo/'' @ ns @ ''_$1'' @ [dquote]))) \<and>
     (\<forall>l. r ''level'' = Some l \<and> (lower l = ''project'' \<or> lower l = ''top'') \<longrightarrow>
        effective_level ns r = Some (lower l)) \<and>
     (\<forall>d. process_rule m ns (YMap r) = Inr (Some d) \<longrightarrow>
        d = ''RedirectMatch '' @
            (case r ''status'' of
               None \<Rightarrow> ''seeother''
             | Some s \<Rightarrow> if s = ''permanent'' then ''permanent''
                         else if s = ''temporary'' then ''temp'' else ''seeother'') @
            '' '' @ [dquote] @ ''(?i)^/obo/'' @ ns @ ''_('' @
            [backslash] @ ''d+)$'' @ [dquote] @ '' '' @ [dquote] @
            ''http://www.ontobee.org/browser/rdf.php?o='' @ ns @
            ''&iri=http://purl.obolibrary.org/obo/'' @ ns @ ''_$1'' @ [dquote])"
proof
  assume a: "rule_types r = [''term_browser''] \<and> r ''term_browser'' = Some b \<and>
    lower b = ''ontobee'' \<and> r ''replacement'' = None"
  then have tb: "rule_types r = [''term_browser'']" "r ''term_browser'' = Some b"
    "lower b = ''ontobee''" "r ''replacement'' = None"
    by simp_all
  note res = resolve_term_browser [OF tb, of ns]
  have p: "r ''path'' = None" "r ''prefix'' = None"
    using tb(1) by (simp_all add: rule_types_term_browser)
  have c1: "r ''level'' = None \<longrightarrow>
        effective_level ns r = Some ''top'' \<and> process_rule ''project'' ns (YMap r) = Inr None"
    by (simp add: effective_level_def process_rule_def res determine_level_def lower_def
        startswith_Nil)
  have c2: "r ''level'' = None \<and> r ''status'' = None \<longrightarrow>
        process_rule ''top'' ns (YMap r) =
          Inr (Some (''RedirectMatch seeother '' @ [dquote] @ ''(?i)^/obo/'' @ ns @ ''_('' @
            [backslash] @ ''d+)$'' @ [dquote] @ '' '' @ [dquote] @
            ''http://www.ontobee.org/browser/rdf.php?o='' @ ns @
            ''&iri=http://purl.obolibrary.org/obo/'' @ ns @ ''_$1'' @ [dquote]))"
    by (simp add: process_rule_def res determine_level_def lower_def startswith_Nil
        top_allowed_def directive_def apache_status_def)
  have c3: "\<forall>l. r ''level'' = Some l \<and> (lower l = ''project'' \<or> lower l = ''top'') \<longrightarrow>
        effective_level ns r = Some (lower l)"
    by (auto simp: effective_level_def res determine_level_def)
  have c4: "\<forall>d. process_rule m ns (YMap r) = Inr (Some d) \<longrightarrow>
        d = ''RedirectMatch '' @
            (case r ''status'' of
               None \<Rightarrow> ''seeother''
             | Some s \<Rightarrow> if s = ''permanent'' then ''permanent''
                         else if s = ''temporary'' then ''temp'' else ''seeother'') @
            '' '' @ [dquote] @ ''(?i)^/obo/'' @ ns @ ''_('' @
            [backslash] @ ''d+)$'' @ [dquote] @ '' '' @ [dquote] @
            ''http://www.ontobee.org/browser/rdf.php?o='' @ ns @
            ''&iri=http://purl.obolibrary.org/obo/'' @ ns @ ''_$1'' @ [dquote]"
  proof (intro allI impI)
    fix d assume "process_rule m ns (YMap r) = Inr (Some d)"
    then obtain st where st: "resolve_rule ns r = Inr st"
      and d: "d = directive (case r ''status'' of None \<Rightarrow> apache_status (status st)
                     | Some s \<Rightarrow> apache_status s) (source st) (replacement st)"
      and ok: "case r ''status'' of None \<Rightarrow> True
               | Some s \<Rightarrow> s = ''permanent'' \<or> s = ''temporary'' \<or> s = ''see other''"
      by (cases "resolve_rule ns r")
        (auto simp: process_rule_def split: if_splits option.splits)
    from resolve_term_browser_Inr [OF tb st] d ok
    show "d = ''RedirectMatch '' @
            (case r ''status'' of
               None \<Rightarrow> ''seeother''
             | Some s \<Rightarrow> if s = ''permanent'' then ''permanent''
                         else if s = ''temporary'' then ''temp'' else ''seeother'') @
            '' '' @ [dquote] @ ''(?i)^/obo/'' @ ns @ ''_('' @
            [backslash] @ ''d+)$'' @ [dquote] @ '' '' @ [dquote] @
            ''http://www.ontobee.org/browser/rdf.php?o='' @ ns @
            ''&iri=http://purl.obolibrary.org/obo/'' @ ns @ ''_$1'' @ [dquote]"
      by (auto simp: directive_def apache_status_def split: option.splits)
  qed
  from c1 c2 c3 c4 show "(r ''level'' = None \<longrightarrow>
        effective_level ns r = Some ''top'' \<and> process_rule ''project'' ns (YMap r) = Inr None) \<and>
     (r ''level'' = None \<and> r ''status'' = None \<longrightarrow>
        process_rule ''top'' ns (YMap r) =
          Inr (Some (''RedirectMatch seeother '' @ [dquote] @ ''(?i)^/obo/'' @ ns @ ''_('' @
            [backslash] @ ''d+)$'' @ [dquote] @ '' '' @ [dquote] @
            ''http://www.ontobee.org/browser/rdf.php?o='' @ ns @
            ''&iri=http://purl.obolibrary.org/obo/'' @ ns @ ''_$1'' @ [dquote]))) \<and>
     (\<forall>l. r ''level'' = Some l \<and> (lower l = ''project'' \<or> lower l = ''top'') \<longrightarrow>
        effective_level ns r = Some (lower l)) \<and>
     (\<forall>d. process_rule m ns (YMap r) = Inr (Some d) \<longrightarrow>
        d = ''RedirectMatch '' @
            (case r ''status'' of
               None \<Rightarrow> ''seeother''
             | Some s \<Rightarrow> if s = ''permanent'' then ''permanent''
                         else if s = ''temporary'' then ''temp'' else ''seeother'') @
            '' '' @ [dquote] @ ''(?i)^/obo/'' @ ns @ ''_('' @
            [backslash] @ ''d+)$'' @ [dquote] @ '' '' @ [dquote] @
            ''http://www.ontobee.org/browser/rdf.php?o='' @ ns @
            ''&iri=http://purl.obolibrary.org/obo/'' @ ns @ ''_$1'' @ [dquote])"
    by blast
qed

theorem term_browser_defaults_witness:
  "rule_types [''term_browser'' \<mapsto> ''OntoBee''] = [''term_browser''] \<and>
   lower ''OntoBee'' = ''ontobee'' \<and>
   effective_level ''GO'' [''term_browser'' \<mapsto> ''OntoBee''] = Some ''top'' \<and>
   process_rule ''project'' ''GO'' (YMap [''term_browser'' \<mapsto> ''OntoBee'']) = Inr None \<and>
   process_rule ''top'' ''GO'' (YMap [''term_browser'' \<mapsto> ''OntoBee'']) =
     Inr (Some (''RedirectMatch seeother '' @ [dquote] @ ''(?i)^/obo/GO_('' @ [backslash] @
       ''d+)$'' @ [dquote] @ '' '' @ [dquote] @
       ''http://www.ontobee.org/browser/rdf.php?o=GO&iri=http://purl.obolibrary.org/obo/GO_$1'' @
       [dquote]))"
proof -
  let ?r = "[''term_browser'' \<mapsto> ''OntoBee'']"
  have a: "rule_types ?r = [''term_browser'']"
    by (simp add: rule_types_def)
  have b: "lower ''OntoBee'' = ''ontobee''"
    by (simp add: lower_def lower_char_def)
  have c: "?r ''term_browser'' = Some ''OntoBee''" "?r ''replacement'' = None"
    "?r ''level'' = None" "?r ''status'' = None"
    by simp_all
  note t = term_browser_defaults [of ?r "''OntoBee''" "''GO''" "''top''", THEN mp]
  have h: "rule_types ?r = [''term_browser''] \<and> ?r ''term_browser'' = Some ''OntoBee'' \<and>
    lower ''OntoBee'' = ''ontobee'' \<and> ?r ''replacement'' = None"
    using a b c by simp
  from t [OF h, THEN conjunct1] c
  have d: "effective_level ''GO'' ?r = Some ''top''"
    "process_rule ''project'' ''GO'' (YMap ?r) = Inr None"
    by simp_all
  from t [OF h, THEN conjunct2, THEN conjunct1] c
  have e: "process_rule ''top'' ''GO'' (YMap ?r) =
     Inr (Some (''RedirectMatch seeother '' @ [dquote] @ ''(?i)^/obo/GO_('' @ [backslash] @
       ''d+)$'' @ [dquote] @ '' '' @ [dquote] @
       ''http://www.ontobee.org/browser/rdf.php?o=GO&iri=http://purl.obolibrary.org/obo/GO_$1'' @
       [dquote]))"
    by simp
  from a b d e show ?thesis by simp
qed

section \<open>The source pattern of a path and of a prefix\<close>

text \<open>
  The source of a path rule is \<^verbatim>\<open>(?i)^\<close>, the cleaned path and \<^verbatim>\<open>$\<close>, and its
  replacement is the one of the rule; the source of a prefix rule ends with
  \<^verbatim>\<open>(.*)$\<close>, and \<^verbatim>\<open>$1\<close> is appended to its replacement. On a string with no backslash,
  \<^verbatim>\<open>clean_source\<close> is the escaping of the stripped string: the call of \<^verbatim>\<open>replace\<close>
  changes nothing, since \<^verbatim>\<open>re.escape\<close> puts no backslash before a slash.
\<close>

lemma resolve_rule_source:
  assumes "resolve_rule ns r = Inr st"
  shows "(rule_type st = ''path'' \<longrightarrow>
            source st = ''(?i)^'' @ clean_source (the (r ''path'')) @ ''$'' \<and>
            replacement st = the (r ''replacement'')) \<and>
         (rule_type st = ''prefix'' \<longrightarrow>
            source st = ''(?i)^'' @ clean_source (the (r ''prefix'')) @ ''(.*)$'' \<and>
            replacement st = the (r ''replacement'') @ ''$1'')"
proof -
  from assms obtain t st0 where t: "rule_types r = [t]"
    and h: "handle_rule ns t r = Inr st0"
    and d: "determine_level ns r st0 = Inr st"
    by (rule resolve_rule_Inr)
  from h have "(t = ''path'' \<longrightarrow>
            source st0 = ''(?i)^'' @ clean_source (the (r ''path'')) @ ''$'' \<and>
            replacement st0 = the (r ''replacement'')) \<and>
         (t = ''prefix'' \<longrightarrow>
            source st0 = ''(?i)^'' @ clean_source (the (r ''prefix'')) @ ''(.*)$'' \<and>
            replacement st0 = the (r ''replacement'') @ ''$1'')"
    by (auto simp: handle_rule_def init_locals_def Let_def split: if_splits)
  with handle_rule_locals [OF h t] determine_level_locals [OF d] show ?thesis
    by simp
qed

lemma replace_Nil: "old \<noteq> [] \<Longrightarrow> replace old new [] = []"
  by (subst replace.simps) simp

lemma replace_Cons_other:
  "old \<noteq> [] \<Longrightarrow> \<not> startswith (c # s) old \<Longrightarrow>
     replace old new (c # s) = c # replace old new s"
  by (subst replace.simps) simp

lemma replace_escaped:
  assumes "backslash \<notin> set s"
  shows "replace [backslash, CHR ''/''] ''/'' (re_escape s) = re_escape s"
  using assms
proof (induction s)
  case Nil
  show ?case by (simp add: re_escape_def replace_Nil)
next
  case (Cons c s)
  then have ih: "replace [backslash, CHR ''/''] ''/'' (re_escape s) = re_escape s"
    and c: "c \<noteq> backslash"
    by auto
  have e: "re_escape (c # s) = (if re_special c then [backslash, c] else [c]) @ re_escape s"
    by (simp add: re_escape_def)
  have n: "\<not> re_special (CHR ''/'')"
    by (simp add: re_special_def)
  show ?case
  proof (cases "re_special c")
    case True
    with n have "c \<noteq> CHR ''/''" by auto
    with True c ih e show ?thesis
      by (simp add: startswith_def replace_Cons_other)
  next
    case False
    with c ih e show ?thesis
      by (simp add: startswith_def replace_Cons_other)
  qed
qed

lemma strip_subset: "set (strip s) \<subseteq> set s"
proof -
  have "set (strip s) = set (dropWhile isspace (rev (dropWhile isspace s)))"
    by (simp add: strip_def)
  also have "\<dots> \<subseteq> set (rev (dropWhile isspace s))"
    by (auto dest: set_dropWhileD)
  also have "\<dots> \<subseteq> set s"
    by (auto dest: set_dropWhileD)
  finally show ?thesis .
qed

lemma clean_source_no_backslash:
  assumes "backslash \<notin> set s"
  shows "clean_source s = re_escape (strip s)"
proof -
  from assms strip_subset [of s] have "backslash \<notin> set (strip s)" by auto
  then show ?thesis by (simp add: clean_source_def replace_escaped)
qed

text \<open>
  Claim C6 at the path \<^verbatim>\<open>/obo/obi/a\/b\<close> (a backslash before the last slash) of the
  namespace \<^verbatim>\<open>OBI\<close>. The escaping doubles the backslash; \<^verbatim>\<open>replace\<close> then finds
  the second backslash followed by the slash and removes it. The source pattern holds
  the path as it was given, with its backslash not escaped: as a regular expression
  it matches \<^verbatim>\<open>/obo/obi/a/b\<close> and not the path of the rule.
\<close>

theorem backslash_slash_unescaped:
  "strip (''/obo/obi/a'' @ [backslash] @ ''/b'') = ''/obo/obi/a'' @ [backslash] @ ''/b'' \<and>
   re_escape (''/obo/obi/a'' @ [backslash] @ ''/b'') =
     ''/obo/obi/a'' @ [backslash, backslash] @ ''/b'' \<and>
   clean_source (''/obo/obi/a'' @ [backslash] @ ''/b'') = ''/obo/obi/a'' @ [backslash] @ ''/b'' \<and>
   process_rule ''project'' ''OBI''
     (YMap [''path'' \<mapsto> ''/obo/obi/a'' @ [backslash] @ ''/b'', ''replacement'' \<mapsto> ''foo'']) =
     Inr (Some (''RedirectMatch temp '' @ [dquote] @ ''(?i)^/obo/obi/a'' @ [backslash] @ ''/b$'' @
       [dquote] @ '' '' @ [dquote] @ ''foo'' @ [dquote]))"
  by (simp add: eval_defs)

end
